theory Spec2Isabelle
  imports Main "HOL-Library.Sublist"
begin

section \<open>The command-line layer of gdown (\<^verbatim>\<open>gdown/__main__.py\<close>)\<close>

text \<open>
  The module has two functions: \<^verbatim>\<open>file_size\<close>, the converter that argparse applies
  to the value of \<^verbatim>\<open>--speed\<close>, and \<^verbatim>\<open>main\<close>, which turns the parsed arguments
  into one call of \<^verbatim>\<open>download\<close> or \<^verbatim>\<open>download_folder\<close> and maps what that call
  raises to a message on stderr and an exit status.
\<close>

subsection \<open>Python values used by \<^verbatim>\<open>file_size\<close>\<close>

text \<open>
  \<^verbatim>\<open>file_size\<close> computes with Python floats (\<^verbatim>\<open>size = float(size)\<close>), that is
  IEEE 754 binary64 numbers. Every float it can produce is either a non-negative
  integer or \<^verbatim>\<open>inf\<close>, so a float is represented by its exact value, and the two
  operations used are written out with their rounding:
  \<^item> \<^verbatim>\<open>float(s)\<close> of a digit string is the double nearest to the number written
    (ties to the even significand), and \<^verbatim>\<open>inf\<close> from \<open>2^1024\<close> on;
  \<^item> \<^verbatim>\<open>x * m\<close> for an exactly representable \<^verbatim>\<open>m\<close> is the exact product, rounded
    the same way.
\<close>

datatype pyfloat = Finite nat | Infinity

text \<open>The number of binary digits of \<open>n\<close> (Python's \<^verbatim>\<open>n.bit_length()\<close>).\<close>

fun bit_length :: "nat \<Rightarrow> nat" where
  "bit_length n = (if n = 0 then 0 else Suc (bit_length (n div 2)))"

text \<open>
  Rounding a natural number to binary64: numbers of at most 53 bits are kept; a longer
  one loses its \<open>e\<close> low bits, rounded to nearest with ties to even; a result that
  reaches \<open>2^1024\<close> is \<^verbatim>\<open>inf\<close>.
\<close>

definition round_double :: "nat \<Rightarrow> pyfloat" where
  "round_double n =
     (if bit_length n \<le> 53 then Finite n
      else
        let e = bit_length n - 53;
            q = n div 2 ^ e;
            r = n mod 2 ^ e;
            half = 2 ^ (e - 1);
            q' = (if half < r \<or> (r = half \<and> odd q) then q + 1 else q);
            v = q' * 2 ^ e
        in if 2 ^ 1024 \<le> v then Infinity else Finite v)"

text \<open>\<^verbatim>\<open>x * m\<close> for a float \<^verbatim>\<open>x\<close> and an integer \<^verbatim>\<open>m\<close> that is itself a double.\<close>

definition float_mul :: "pyfloat \<Rightarrow> nat \<Rightarrow> pyfloat" where
  "float_mul x m = (case x of Infinity \<Rightarrow> Infinity | Finite v \<Rightarrow> round_double (v * m))"

text \<open>
  The natural numbers that are values of binary64: those below \<open>2^1024\<close> with at most 53
  significant bits, that is, whose bits below the 53 leading ones are all zero.
\<close>

definition representable :: "nat \<Rightarrow> bool" where
  "representable n = (n < 2 ^ 1024 \<and> 2 ^ (bit_length n - 53) dvd n)"

text \<open>The value of a string of ASCII digits, read in base ten.\<close>

definition is_digit :: "char \<Rightarrow> bool" where
  "is_digit c = (c \<in> set ''0123456789'')"

definition digit_val :: "char \<Rightarrow> nat" where
  "digit_val c = of_char c - 48"

definition decimal :: "string \<Rightarrow> nat" where
  "decimal ds = foldl (\<lambda>a c. 10 * a + digit_val c) 0 ds"

text \<open>\<^verbatim>\<open>float(size)\<close> for the digit string captured by the pattern.\<close>

definition float_of_digits :: "string \<Rightarrow> pyfloat" where
  "float_of_digits ds = round_double (decimal ds)"

subsection \<open>\<^verbatim>\<open>file_size\<close>\<close>

text \<open>
  \<^verbatim>\<open>re.match(r"([0-9]+)(GB|MB|KB|B)", argv)\<close> matches at the start of the string
  and does not look at what follows the match. The first group is greedy: it takes the
  longest run of digits; giving a digit back cannot help, because the second group
  would then have to start with a digit. The alternatives of the second group are tried
  in the order written.
\<close>

definition match_unit :: "string \<Rightarrow> string option" where
  "match_unit s =
     (if prefix ''GB'' s then Some ''GB''
      else if prefix ''MB'' s then Some ''MB''
      else if prefix ''KB'' s then Some ''KB''
      else if prefix ''B'' s then Some ''B''
      else None)"

definition re_match_size :: "string \<Rightarrow> (string \<times> string) option" where
  "re_match_size s =
     (let ds = takeWhile is_digit s in
      if ds = [] then None
      else case match_unit (dropWhile is_digit s) of
             None \<Rightarrow> None
           | Some u \<Rightarrow> Some (ds, u))"

datatype error = TypeError

text \<open>
  The argument is \<^verbatim>\<open>None\<close> or a string; the result is an error, \<^verbatim>\<open>None\<close> (the
  function falls off its end when the argument is \<^verbatim>\<open>None\<close>) or a float.
\<close>

definition file_size :: "string option \<Rightarrow> error + pyfloat option" where
  "file_size argv =
     (case argv of
        None \<Rightarrow> Inr None
      | Some s \<Rightarrow>
          (case re_match_size s of
             None \<Rightarrow> Inl TypeError
           | Some (size_str, unit) \<Rightarrow>
               let size = float_of_digits size_str in
               Inr (Some
                 (if unit = ''KB'' then float_mul size 1024
                  else if unit = ''MB'' then float_mul size (1024 ^ 2)
                  else if unit = ''GB'' then float_mul size (1024 ^ 3)
                  else if unit = ''B'' then size
                  else size))))"

subsection \<open>The parsed command line\<close>

text \<open>
  \<^verbatim>\<open>args = parser.parse_args()\<close>: one field per \<^verbatim>\<open>add_argument\<close>. A flag with
  \<^verbatim>\<open>action="store_true"\<close> is a boolean; an option without a default is \<^verbatim>\<open>None\<close>
  when absent; \<^verbatim>\<open>--speed\<close> has already gone through \<^verbatim>\<open>file_size\<close>.
  (\<^verbatim>\<open>args.id\<close> is named \<open>id_flag\<close> and \<^verbatim>\<open>args.output\<close> \<open>output_arg\<close> here: \<open>id\<close> is the
  identity function of HOL and \<open>output\<close> a keyword of Isabelle; \<^verbatim>\<open>args.continue_\<close> is
  \<open>continue_arg\<close>, a name of Isabelle not ending in an underscore.)
\<close>

record args =
  url_or_id :: string
  output_arg :: "string option"
  quiet :: bool
  fuzzy :: bool
  id_flag :: bool
  proxy :: "string option"
  speed :: "pyfloat option"
  no_cookies :: bool
  no_check_certificate :: bool
  continue_arg :: bool
  folder :: bool
  remaining_ok :: bool
  format :: "string option"
  user_agent :: "string option"

text \<open>What \<^verbatim>\<open>output\<close> can be once \<^verbatim>\<open>main\<close> has looked at it: a path or the stream
  \<^verbatim>\<open>sys.stdout.buffer\<close>.\<close>

datatype destination = Path string | StdoutBuffer

text \<open>The keyword arguments of the two downstream calls, in the order \<^verbatim>\<open>main\<close> writes them.\<close>

record download_folder_kwargs =
  f_url :: "string option"
  f_id :: "string option"
  f_output :: "destination option"
  f_quiet :: bool
  f_proxy :: "string option"
  f_speed :: "pyfloat option"
  f_use_cookies :: bool
  f_verify :: bool
  f_remaining_ok :: bool
  f_user_agent :: "string option"
  f_resume :: bool

record download_kwargs =
  d_url :: "string option"
  d_output :: "destination option"
  d_quiet :: bool
  d_proxy :: "string option"
  d_speed :: "pyfloat option"
  d_use_cookies :: bool
  d_verify :: bool
  d_id :: "string option"
  d_fuzzy :: bool
  d_resume :: bool
  d_format :: "string option"
  d_user_agent :: "string option"

subsection \<open>Exceptions and the outcome of a run\<close>

text \<open>
  What the downstream call can raise, each with its \<^verbatim>\<open>str(e)\<close>: the three classes
  \<^verbatim>\<open>main\<close> names, any other instance of \<^verbatim>\<open>Exception\<close>, and an exception that is
  not an instance of \<^verbatim>\<open>Exception\<close> (\<^verbatim>\<open>KeyboardInterrupt\<close>, \<^verbatim>\<open>SystemExit\<close>),
  which no \<^verbatim>\<open>except\<close> clause of \<^verbatim>\<open>main\<close> matches.
\<close>

datatype exn =
    FileURLRetrievalError string
  | FolderContentsMaximumLimitError string
  | ProxyError string
  | OtherException string
  | NonException string

fun is_Exception :: "exn \<Rightarrow> bool" where
  "is_Exception (NonException m) = False"
| "is_Exception e = True"

text \<open>How \<^verbatim>\<open>main\<close> ends: it returns, it calls \<^verbatim>\<open>sys.exit(n)\<close>, or an exception
  leaves it.\<close>

datatype ending = Returned | Exited nat | Propagated exn

text \<open>
  A run of \<^verbatim>\<open>main\<close>: the text \<^verbatim>\<open>main\<close> itself printed to \<^verbatim>\<open>sys.stderr\<close>, the
  warnings it issued, how it ended, and the state of everything the downstream call
  acts on (network, files, cookies) after the run.
\<close>

record 'w run =
  stderr :: string
  warnings :: "string list"
  status :: ending
  world :: 'w

subsection \<open>Messages\<close>

definition nl :: string where
  "nl = [CHR 0x0A]"

definition tab :: string where
  "tab = [CHR 0x09]"

text \<open>\<^verbatim>\<open>sep.join(xs)\<close>\<close>

fun join :: "string \<Rightarrow> string list \<Rightarrow> string" where
  "join sep [] = []"
| "join sep [x] = x"
| "join sep (x # y # ys) = x @ sep @ join sep (y # ys)"

text \<open>
  \<^verbatim>\<open>indent("\n".join(textwrap.wrap(str(e))), prefix="\t")\<close>. \<^verbatim>\<open>textwrap.wrap\<close>
  belongs to the standard library and \<^verbatim>\<open>indent\<close> to the module
  \<^verbatim>\<open>gdown._indent\<close>; both are parameters here.
\<close>

definition error_msg ::
  "(string \<Rightarrow> string list) \<Rightarrow> (string \<Rightarrow> string \<Rightarrow> string) \<Rightarrow> string \<Rightarrow> string" where
  "error_msg wrap indent m = indent (join nl (wrap m)) tab"

text \<open>The three formatted messages, and \<^verbatim>\<open>print(x, file=sys.stderr)\<close>.\<close>

definition folder_limit_message :: "string \<Rightarrow> string" where
  "folder_limit_message em =
     ''Failed to retrieve folder contents:'' @ nl @ nl @ em @ nl @ nl @
     ''You can use `--remaining-ok` option to ignore this error.''"

definition proxy_message :: "string \<Rightarrow> string" where
  "proxy_message em =
     ''Failed to use proxy:'' @ nl @ nl @ em @ nl @ nl @
     ''Please check your proxy settings.''"

definition generic_message :: "string \<Rightarrow> string" where
  "generic_message em =
     ''Error:'' @ nl @ nl @ em @ nl @ nl @
     ''To report issues, please visit https://github.com/wkentaro/gdown/issues.''"

definition print :: "string \<Rightarrow> string" where
  "print x = x @ nl"

definition id_deprecation_warning :: string where
  "id_deprecation_warning =
     ''Option `--id` was deprecated in version 4.3.1 and will be removed in 5.0. You don'' @
     [CHR 0x27] @ ''t need to pass it anymore to use a file ID.''"

subsection \<open>\<^verbatim>\<open>main\<close>\<close>

text \<open>
  \<^verbatim>\<open>if args.output == "-": args.output = sys.stdout.buffer\<close>
\<close>

definition main_output :: "args \<Rightarrow> destination option" where
  "main_output a =
     (if output_arg a = Some ''-'' then Some StdoutBuffer else map_option Path (output_arg a))"

text \<open>
  \<^verbatim>\<open>re.match("^https?://.*", s)\<close>: the match starts at the beginning of the string,
  \<^verbatim>\<open>s?\<close> takes an \<^verbatim>\<open>s\<close> or nothing, and \<^verbatim>\<open>.*\<close> also matches the empty string, so
  the pattern matches exactly the strings that begin with \<^verbatim>\<open>http://\<close> or
  \<^verbatim>\<open>https://\<close>.
\<close>

definition re_match_url :: "string \<Rightarrow> bool" where
  "re_match_url s = (prefix ''http://'' s \<or> prefix ''https://'' s)"

text \<open>The pair \<^verbatim>\<open>(url, id)\<close> that lines 154 to 169 compute.\<close>

definition main_target :: "args \<Rightarrow> string option \<times> string option" where
  "main_target a =
     (if id_flag a then (None, Some (url_or_id a))
      else if re_match_url (url_or_id a) then (Some (url_or_id a), None)
      else (None, Some (url_or_id a)))"

definition main_warnings :: "args \<Rightarrow> string list" where
  "main_warnings a = (if id_flag a then [id_deprecation_warning] else [])"

definition download_folder_call :: "args \<Rightarrow> download_folder_kwargs" where
  "download_folder_call a =
     \<lparr>f_url = fst (main_target a),
      f_id = snd (main_target a),
      f_output = main_output a,
      f_quiet = quiet a,
      f_proxy = proxy a,
      f_speed = speed a,
      f_use_cookies = (\<not> no_cookies a),
      f_verify = (\<not> no_check_certificate a),
      f_remaining_ok = remaining_ok a,
      f_user_agent = user_agent a,
      f_resume = continue_arg a\<rparr>"

definition download_call :: "args \<Rightarrow> download_kwargs" where
  "download_call a =
     \<lparr>d_url = fst (main_target a),
      d_output = main_output a,
      d_quiet = quiet a,
      d_proxy = proxy a,
      d_speed = speed a,
      d_use_cookies = (\<not> no_cookies a),
      d_verify = (\<not> no_check_certificate a),
      d_id = snd (main_target a),
      d_fuzzy = fuzzy a,
      d_resume = continue_arg a,
      d_format = format a,
      d_user_agent = user_agent a\<rparr>"

text \<open>
  The body of the \<^verbatim>\<open>try\<close>: one call, of \<^verbatim>\<open>download_folder\<close> when \<^verbatim>\<open>--folder\<close>
  is given and of \<^verbatim>\<open>download\<close> otherwise. The two functions live in other modules
  and are parameters: given the keyword arguments and the state of the world, a call
  returns the exception it raised (\<open>None\<close> when it returned) and the new state.
\<close>

definition try_body ::
  "(download_kwargs \<Rightarrow> 'w \<Rightarrow> exn option \<times> 'w) \<Rightarrow>
   (download_folder_kwargs \<Rightarrow> 'w \<Rightarrow> exn option \<times> 'w) \<Rightarrow> args \<Rightarrow> 'w \<Rightarrow> exn option \<times> 'w" where
  "try_body download download_folder a w =
     (if folder a then download_folder (download_folder_call a) w
      else download (download_call a) w)"

text \<open>The \<^verbatim>\<open>except\<close> clauses, in the order of the source; each ends in \<^verbatim>\<open>sys.exit(1)\<close>.\<close>

definition main ::
  "(string \<Rightarrow> string list) \<Rightarrow> (string \<Rightarrow> string \<Rightarrow> string) \<Rightarrow>
   (download_kwargs \<Rightarrow> 'w \<Rightarrow> exn option \<times> 'w) \<Rightarrow>
   (download_folder_kwargs \<Rightarrow> 'w \<Rightarrow> exn option \<times> 'w) \<Rightarrow> args \<Rightarrow> 'w \<Rightarrow> 'w run" where
  "main wrap indent download download_folder a w =
     (let (raised, w') = try_body download download_folder a w;
          finish = (\<lambda>text st. \<lparr>stderr = text, warnings = main_warnings a, status = st, world = w'\<rparr>)
      in case raised of
           None \<Rightarrow> finish [] Returned
         | Some (FileURLRetrievalError m) \<Rightarrow> finish (print m) (Exited 1)
         | Some (FolderContentsMaximumLimitError m) \<Rightarrow>
             finish (print (folder_limit_message (error_msg wrap indent m))) (Exited 1)
         | Some (ProxyError m) \<Rightarrow>
             finish (print (proxy_message (error_msg wrap indent m))) (Exited 1)
         | Some (OtherException m) \<Rightarrow>
             finish (print (generic_message (error_msg wrap indent m))) (Exited 1)
         | Some (NonException m) \<Rightarrow> finish [] (Propagated (NonException m)))"

subsection \<open>The specification's reading of a speed limit\<close>

text \<open>
  The specification describes a speed limit as \<^verbatim>\<open><digits>(B|KB|MB|GB)\<close> with binary
  multiples. The two definitions below follow its words, for comparison with
  \<^verbatim>\<open>file_size\<close>: the multiplier of a unit, and the strings that are, as a whole, one
  or more digits followed by a unit.
\<close>

definition spec_unit_multiplier :: "string \<Rightarrow> nat" where
  "spec_unit_multiplier u =
     (if u = ''B'' then 1
      else if u = ''KB'' then 1024
      else if u = ''MB'' then 1024 ^ 2
      else if u = ''GB'' then 1024 ^ 3
      else 0)"

definition spec_size_format :: "string \<Rightarrow> bool" where
  "spec_size_format s =
     (takeWhile is_digit s \<noteq> [] \<and> dropWhile is_digit s \<in> {''B'', ''KB'', ''MB'', ''GB''})"

subsection \<open>Concrete runs\<close>

text \<open>
  A command line with the target \<^verbatim>\<open>abc123\<close> and no option; \<^verbatim>\<open>textwrap.wrap\<close> and
  \<^verbatim>\<open>indent\<close> as they act on a short text of one line; and downstream functions
  that count their calls in the state, one raising a given exception and one returning.
\<close>

definition example_args :: args where
  "example_args =
     \<lparr>url_or_id = ''abc123'', output_arg = None, quiet = False, fuzzy = False,
      id_flag = False, proxy = None, speed = None, no_cookies = False,
      no_check_certificate = False, continue_arg = False, folder = False,
      remaining_ok = False, format = None, user_agent = None\<rparr>"

definition line_wrap :: "string \<Rightarrow> string list" where
  "line_wrap m = [m]"

definition line_indent :: "string \<Rightarrow> string \<Rightarrow> string" where
  "line_indent text p = p @ text"

definition raising :: "exn \<Rightarrow> 'k \<Rightarrow> nat \<Rightarrow> exn option \<times> nat" where
  "raising e kw n = (Some e, Suc n)"

definition returning :: "'k \<Rightarrow> nat \<Rightarrow> exn option \<times> nat" where
  "returning kw n = (None, Suc n)"

text \<open>A downstream function that returns normally and appends to the state what it
  sees in its keyword arguments through \<open>f\<close>.\<close>

definition observing :: "('k \<Rightarrow> 'v) \<Rightarrow> 'k \<Rightarrow> 'v list \<Rightarrow> exn option \<times> 'v list" where
  "observing f kw seen = (None, seen @ [f kw])"

section \<open>Properties of \<^verbatim>\<open>file_size\<close>\<close>

declare bit_length.simps [simp del]

lemma bit_length_le: "n < 2 ^ k \<Longrightarrow> bit_length n \<le> k"
proof (induction k arbitrary: n)
  case 0
  then show ?case by (simp add: bit_length.simps)
next
  case (Suc k)
  show ?case
  proof (cases "n = 0")
    case True
    then show ?thesis by (simp add: bit_length.simps)
  next
    case False
    from Suc.prems have "n div 2 < 2 ^ k" by simp
    then have "bit_length (n div 2) \<le> k" by (rule Suc.IH)
    with False show ?thesis by (subst bit_length.simps) simp
  qed
qed

lemma bit_length_upper: "n < 2 ^ bit_length n"
proof (induction n rule: bit_length.induct)
  case (1 n)
  show ?case
  proof (cases "n = 0")
    case True
    then show ?thesis by simp
  next
    case False
    with 1 have "n div 2 < 2 ^ bit_length (n div 2)" by simp
    then have "n < 2 * 2 ^ bit_length (n div 2)" by linarith
    with False show ?thesis by (subst bit_length.simps) simp
  qed
qed

lemma bit_length_lower: "n \<noteq> 0 \<Longrightarrow> 2 ^ (bit_length n - 1) \<le> n"
proof (induction n rule: bit_length.induct)
  case (1 n)
  show ?case
  proof (cases "n div 2 = 0")
    case True
    with "1.prems" have "n = 1" by (auto simp: div_eq_0_iff)
    then show ?thesis by (simp add: bit_length.simps)
  next
    case False
    with 1 have "2 ^ (bit_length (n div 2) - 1) \<le> n div 2" by simp
    then have le: "2 * 2 ^ (bit_length (n div 2) - 1) \<le> n" by linarith
    from False have pos: "0 < bit_length (n div 2)"
      by (subst bit_length.simps) simp
    have "bit_length n = Suc (bit_length (n div 2))"
      using "1.prems" by (subst bit_length.simps) simp
    with le pos show ?thesis
      by (cases "bit_length (n div 2)") simp_all
  qed
qed

text \<open>
  The doubles are the numbers \<open>m * 2^k\<close> below \<open>2^1024\<close> with a significand \<open>m\<close> of at
  most 53 bits.
\<close>

lemma representable_mult:
  assumes m: "m < 2 ^ 53" and small: "m * 2 ^ k < 2 ^ 1024"
  shows "representable (m * 2 ^ k)"
proof -
  have "m * 2 ^ k < 2 ^ (53 + k)" using m by (simp add: power_add)
  then have "bit_length (m * 2 ^ k) \<le> 53 + k" by (rule bit_length_le)
  then have "bit_length (m * 2 ^ k) - 53 \<le> k" by simp
  then have "(2::nat) ^ (bit_length (m * 2 ^ k) - 53) dvd 2 ^ k" by (rule le_imp_power_dvd)
  then have "(2::nat) ^ (bit_length (m * 2 ^ k) - 53) dvd m * 2 ^ k" by (rule dvd_mult)
  with small show ?thesis unfolding representable_def by blast
qed

lemma representable_iff:
  "representable n \<longleftrightarrow> n < 2 ^ 1024 \<and> (\<exists>m k. m < 2 ^ 53 \<and> n = m * 2 ^ k)"
proof
  assume r: "representable n"
  define k where "k = bit_length n - 53"
  from r have dv: "2 ^ k dvd n" and small: "n < 2 ^ 1024"
    unfolding representable_def k_def by blast+
  have "n div 2 ^ k < 2 ^ 53"
  proof (cases "bit_length n \<le> 53")
    case True
    have "n < 2 ^ bit_length n" by (rule bit_length_upper)
    also have "\<dots> \<le> 2 ^ 53" using True by (intro power_increasing) simp_all
    finally show ?thesis using True by (simp add: k_def)
  next
    case False
    then have "bit_length n = 53 + k" by (simp add: k_def)
    with bit_length_upper [of n] have "n < 2 ^ 53 * 2 ^ k" by (simp add: power_add)
    then show ?thesis by (simp add: less_mult_imp_div_less)
  qed
  moreover from dv have "n = n div 2 ^ k * 2 ^ k" by simp
  ultimately show "n < 2 ^ 1024 \<and> (\<exists>m k. m < 2 ^ 53 \<and> n = m * 2 ^ k)"
    using small by blast
next
  assume "n < 2 ^ 1024 \<and> (\<exists>m k. m < 2 ^ 53 \<and> n = m * 2 ^ k)"
  then show "representable n" using representable_mult by blast
qed

lemma representable_scale:
  "representable n \<Longrightarrow> n * 2 ^ j < 2 ^ 1024 \<Longrightarrow> representable (n * 2 ^ j)"
proof -
  assume "representable n" and small: "n * 2 ^ j < 2 ^ 1024"
  then obtain m k where m: "m < 2 ^ 53" and n: "n = m * 2 ^ k"
    unfolding representable_iff by blast
  have "n * 2 ^ j = m * 2 ^ (k + j)" by (simp add: n power_add)
  with small m representable_mult [of m "k + j"] show ?thesis by simp
qed

text \<open>Rounding keeps exactly the doubles, and its finite results are doubles.\<close>

lemma round_double_representable:
  assumes "representable n"
  shows "round_double n = Finite n"
proof (cases "bit_length n \<le> 53")
  case True
  then show ?thesis by (simp add: round_double_def)
next
  case False
  define e where "e = bit_length n - 53"
  from assms have dv: "2 ^ e dvd n" and small: "n < 2 ^ 1024"
    unfolding representable_def e_def by blast+
  from dv have r: "n mod 2 ^ e = 0" by (simp add: mod_eq_0_iff_dvd)
  from dv have q: "n div 2 ^ e * 2 ^ e = n" by simp
  show ?thesis
    using False small r q
    by (simp add: round_double_def Let_def e_def [symmetric])
qed

text \<open>The quotient kept by the rounding has exactly 53 bits.\<close>

lemma round_double_quotient:
  assumes "\<not> bit_length n \<le> 53"
  defines "e \<equiv> bit_length n - 53"
  shows "2 ^ 52 \<le> n div 2 ^ e" and "n div 2 ^ e < 2 ^ 53"
proof -
  from assms(1) have b: "bit_length n = 53 + e" and b1: "bit_length n - 1 = 52 + e"
    by (simp_all add: e_def)
  have "n \<noteq> 0"
  proof
    assume "n = 0"
    then have "bit_length n = 0" by (simp add: bit_length.simps)
    with assms(1) show False by simp
  qed
  then have "2 ^ (bit_length n - 1) \<le> n" by (rule bit_length_lower)
  then have "2 ^ (52 + e) \<le> n" unfolding b1 .
  then have "2 ^ 52 * 2 ^ e \<le> n" by (simp add: power_add)
  then show "2 ^ 52 \<le> n div 2 ^ e"
    by (simp add: less_eq_div_iff_mult_less_eq)
  from bit_length_upper [of n] have "n < 2 ^ 53 * 2 ^ e" by (simp add: b power_add)
  then show "n div 2 ^ e < 2 ^ 53" by (simp add: less_mult_imp_div_less)
qed

lemma round_double_overflow:
  assumes "2 ^ 1024 \<le> n"
  shows "round_double n = Infinity"
proof -
  have nb: "\<not> bit_length n \<le> 1024"
  proof
    assume "bit_length n \<le> 1024"
    then have "(2::nat) ^ bit_length n \<le> 2 ^ 1024" by (intro power_increasing) simp_all
    with bit_length_upper [of n] assms show False by linarith
  qed
  then have nb53: "\<not> bit_length n \<le> 53" by simp
  define e where "e = bit_length n - 53"
  define q where "q = n div 2 ^ e"
  have q52: "2 ^ 52 \<le> q" unfolding q_def e_def by (rule round_double_quotient(1) [OF nb53])
  from nb have "1024 \<le> 52 + e" by (simp add: e_def)
  then have "(2::nat) ^ 1024 \<le> 2 ^ (52 + e)" by (intro power_increasing) simp_all
  also have "\<dots> = 2 ^ 52 * 2 ^ e" by (simp add: power_add)
  also have "\<dots> \<le> q * 2 ^ e" using q52 by simp
  finally have big: "2 ^ 1024 \<le> q * 2 ^ e" .
  then have big': "2 ^ 1024 \<le> (q + 1) * 2 ^ e" by (simp add: add_mult_distrib)
  show ?thesis
    using nb53 big big'
    by (simp add: round_double_def Let_def e_def [symmetric] q_def [symmetric])
qed

lemma round_double_range:
  assumes "round_double n = Finite v"
  shows "representable v"
proof (cases "bit_length n \<le> 53")
  case True
  with assms have vn: "v = n" by (simp add: round_double_def)
  have "n < 2 ^ bit_length n" by (rule bit_length_upper)
  also have "\<dots> \<le> 2 ^ 53" using True by (intro power_increasing) simp_all
  finally have n53: "n < 2 ^ 53" .
  have "(2::nat) ^ 53 < 2 ^ 1024" by (intro power_strict_increasing) simp_all
  with n53 have "n * 2 ^ 0 < 2 ^ 1024" by simp
  with n53 representable_mult [of n 0] show ?thesis by (simp add: vn)
next
  case False
  define e where "e = bit_length n - 53"
  define q where "q = n div 2 ^ e"
  have q53: "q < 2 ^ 53" unfolding q_def e_def by (rule round_double_quotient(2) [OF False])
  define q' where
    "q' = (if 2 ^ (e - 1) < n mod 2 ^ e \<or> (n mod 2 ^ e = 2 ^ (e - 1) \<and> odd q) then q + 1 else q)"
  have rd: "round_double n = (if 2 ^ 1024 \<le> q' * 2 ^ e then Infinity else Finite (q' * 2 ^ e))"
    unfolding round_double_def Let_def q'_def q_def e_def
    by (simp only: False if_False)
  from assms have v: "v = q' * 2 ^ e" and small: "v < 2 ^ 1024"
    unfolding rd by (simp_all split: if_splits)
  have q': "q' = q \<or> q' = q + 1" by (simp add: q'_def)
  from q' q53 consider "q' < 2 ^ 53" | "q' = 2 ^ 53" by force
  then show ?thesis
  proof cases
    case 1
    with small show ?thesis unfolding v by (intro representable_mult)
  next
    case 2
    then have "v = 2 ^ 52 * 2 ^ (Suc e)" by (simp add: v)
    moreover have "representable (2 ^ 52 * 2 ^ (Suc e))"
    proof (rule representable_mult)
      show "(2::nat) ^ 52 < 2 ^ 53" by simp
      show "(2::nat) ^ 52 * 2 ^ Suc e < 2 ^ 1024" using small 2 by (simp add: v)
    qed
    ultimately show ?thesis by simp
  qed
qed

lemma round_double_Finite_iff: "round_double n = Finite n \<longleftrightarrow> representable n"
  using round_double_range round_double_representable by blast

text \<open>Multiplying a double by a power of two is exact, up to overflow.\<close>

lemma round_double_scale:
  assumes "representable v"
  shows "round_double (v * 2 ^ j) = (if v * 2 ^ j < 2 ^ 1024 then Finite (v * 2 ^ j) else Infinity)"
proof (cases "v * 2 ^ j < 2 ^ 1024")
  case True
  with assms have "representable (v * 2 ^ j)" by (rule representable_scale)
  then show ?thesis using True by (simp add: round_double_representable)
next
  case False
  then have "2 ^ 1024 \<le> v * 2 ^ j" by simp
  then show ?thesis using False by (simp add: round_double_overflow)
qed

text \<open>The pattern matches a string that starts with digits and a unit, whatever follows.\<close>

lemma re_match_size_prefix:
  assumes "ds \<noteq> []" and "\<forall>c\<in>set ds. is_digit c"
    and "u \<in> {''B'', ''KB'', ''MB'', ''GB''}"
  shows "re_match_size (ds @ u @ rest) = Some (ds, u)"
proof -
  from assms(3) obtain c cs where u: "u = c # cs" and c: "\<not> is_digit c"
    by (auto simp: is_digit_def)
  from assms(2) c have tw: "takeWhile is_digit (ds @ u @ rest) = ds"
    by (simp add: u takeWhile_append2)
  from assms(2) c have dw: "dropWhile is_digit (ds @ u @ rest) = u @ rest"
    by (simp add: u dropWhile_append2)
  from assms(3) have "match_unit (u @ rest) = Some u"
    by (auto simp: match_unit_def)
  with tw dw assms(1) show ?thesis
    by (simp add: re_match_size_def)
qed

text \<open>
  Claim C1, as stated: for every string of digits followed by a unit, \<^verbatim>\<open>file_size\<close>
  returns the value of the digits times the multiplier of the unit. The result is a
  float, and a digit value of more than 53 bits is rounded: for \<^verbatim>\<open>9007199254740993B\<close>
  (\<open>2^53 + 1\<close> bytes) the function returns \<open>9007199254740992.0\<close>.
\<close>

theorem file_size_large_digits_counterexample:
  "file_size (Some (''9007199254740993'' @ ''B'')) = Inr (Some (Finite 9007199254740992)) \<and>
   file_size (Some (''9007199254740993'' @ ''B''))
     \<noteq> Inr (Some (Finite (decimal ''9007199254740993'' * spec_unit_multiplier ''B'')))"
  by (simp add: file_size_def re_match_size_def match_unit_def is_digit_def float_of_digits_def
      decimal_def digit_val_def round_double_def bit_length.simps Let_def
      spec_unit_multiplier_def)

text \<open>
  What \<^verbatim>\<open>file_size\<close> returns for digits followed by a unit: the digits as a float, times
  the multiplier, \<^verbatim>\<open>inf\<close> when either step overflows.
\<close>

lemma file_size_value:
  assumes "ds \<noteq> []" and "list_all is_digit ds"
    and "u \<in> {''B'', ''KB'', ''MB'', ''GB''}"
  shows "file_size (Some (ds @ u)) =
           Inr (Some (case round_double (decimal ds) of
                        Infinity \<Rightarrow> Infinity
                      | Finite v \<Rightarrow>
                          if v * spec_unit_multiplier u < 2 ^ 1024
                          then Finite (v * spec_unit_multiplier u) else Infinity))"
proof -
  from assms(2) have digits: "\<forall>c\<in>set ds. is_digit c"
    by (simp add: list_all_iff)
  have m: "re_match_size (ds @ u) = Some (ds, u)"
    using re_match_size_prefix [OF assms(1) digits assms(3), of "[]"] by simp
  show ?thesis
  proof (cases "round_double (decimal ds)")
    case Infinity
    from assms(3) m show ?thesis
      by (auto simp: file_size_def float_of_digits_def Infinity float_mul_def)
  next
    case (Finite v)
    then have rep: "representable v" by (rule round_double_range)
    then have v: "v < 2 ^ 1024" by (simp add: representable_def)
    note sc = round_double_scale [OF rep]
    from assms(3) consider "u = ''B''" | "u = ''KB''" | "u = ''MB''" | "u = ''GB''" by auto
    then show ?thesis
    proof cases
      case 1
      with m v show ?thesis
        by (simp add: file_size_def float_of_digits_def Finite spec_unit_multiplier_def)
    next
      case 2
      with m sc [of 10] show ?thesis
        by (simp add: file_size_def float_of_digits_def Finite spec_unit_multiplier_def
            float_mul_def)
    next
      case 3
      with m sc [of 20] show ?thesis
        by (simp add: file_size_def float_of_digits_def Finite spec_unit_multiplier_def
            float_mul_def)
    next
      case 4
      with m sc [of 30] show ?thesis
        by (simp add: file_size_def float_of_digits_def Finite spec_unit_multiplier_def
            float_mul_def)
    qed
  qed
qed

text \<open>
  Claim C1, amended: for every string of one or more digits followed by one of the units
  B, KB, MB, GB, \<^verbatim>\<open>file_size\<close> returns a float, and that float is the value of the digits
  times the multiplier of the unit (1, 1024, \<open>1024^2\<close>, \<open>1024^3\<close>) exactly when the value
  of the digits is a binary64 number and the product is below \<open>2^1024\<close>. This is so for
  every digit value up to \<open>2^53\<close>; in particular \<^verbatim>\<open>file_size("10MB")\<close> is
  \<open>10 * 1024 * 1024\<close>.
\<close>

theorem file_size_digits_unit:
  assumes "ds \<noteq> []" and "list_all is_digit ds"
    and "u \<in> {''B'', ''KB'', ''MB'', ''GB''}"
  shows "(\<exists>x. file_size (Some (ds @ u)) = Inr (Some x)) \<and>
         (file_size (Some (ds @ u)) = Inr (Some (Finite (decimal ds * spec_unit_multiplier u)))
            \<longleftrightarrow> representable (decimal ds) \<and> decimal ds * spec_unit_multiplier u < 2 ^ 1024) \<and>
         (decimal ds \<le> 2 ^ 53 \<longrightarrow>
            file_size (Some (ds @ u)) = Inr (Some (Finite (decimal ds * spec_unit_multiplier u))))"
proof -
  define d where "d = decimal ds"
  define k where "k = spec_unit_multiplier u"
  note val = file_size_value [OF assms, folded d_def k_def]
  from assms(3) have kpos: "0 < k" and k30: "k \<le> 2 ^ 30"
    by (auto simp: k_def spec_unit_multiplier_def)
  have iff: "file_size (Some (ds @ u)) = Inr (Some (Finite (d * k)))
               \<longleftrightarrow> representable d \<and> d * k < 2 ^ 1024"
  proof
    assume eq: "file_size (Some (ds @ u)) = Inr (Some (Finite (d * k)))"
    show "representable d \<and> d * k < 2 ^ 1024"
    proof (cases "round_double d")
      case Infinity
      with val eq show ?thesis by simp
    next
      case (Finite v)
      with val eq have small: "v * k < 2 ^ 1024" and "v * k = d * k"
        by (auto split: if_splits)
      with kpos have "v = d" by simp
      with Finite small show ?thesis by (simp add: round_double_Finite_iff)
    qed
  next
    assume "representable d \<and> d * k < 2 ^ 1024"
    then have "round_double d = Finite d" and "d * k < 2 ^ 1024"
      by (simp_all add: round_double_representable)
    with val show "file_size (Some (ds @ u)) = Inr (Some (Finite (d * k)))" by simp
  qed
  have upto: "representable d \<and> d * k < 2 ^ 1024" if le: "d \<le> 2 ^ 53"
  proof
    have lim: "(2::nat) ^ 53 * 2 ^ 30 < 2 ^ 1024" by simp
    from le consider "d < 2 ^ 53" | "d = 2 ^ 52 * 2 ^ 1" by force
    then show "representable d"
    proof cases
      case 1
      with le lim representable_mult [of d 0] show ?thesis by simp
    next
      case 2
      have "representable (2 ^ 52 * 2 ^ 1)" by (rule representable_mult) simp_all
      with 2 show ?thesis by simp
    qed
    have "d * k \<le> 2 ^ 53 * 2 ^ 30" using le k30 by (rule mult_le_mono)
    with lim show "d * k < 2 ^ 1024" by linarith
  qed
  have "\<exists>x. file_size (Some (ds @ u)) = Inr (Some x)" using val by blast
  with iff upto show ?thesis unfolding d_def k_def by blast
qed

theorem file_size_digits_unit_witness:
  "''10'' \<noteq> [] \<and> list_all is_digit ''10'' \<and> ''MB'' \<in> {''B'', ''KB'', ''MB'', ''GB''} \<and>
   decimal ''10'' \<le> 2 ^ 53 \<and>
   representable (decimal ''10'') \<and>
   decimal ''10'' * spec_unit_multiplier ''MB'' < 2 ^ 1024 \<and>
   file_size (Some ''10MB'') = Inr (Some (Finite (10 * 1024 * 1024))) \<and>
   list_all is_digit ''9007199254740992'' \<and> decimal ''9007199254740992'' \<le> 2 ^ 53 \<and>
   file_size (Some ''9007199254740992B'') = Inr (Some (Finite 9007199254740992))"
proof -
  have h1: "''10'' \<noteq> []" by simp
  have h2: "list_all is_digit ''10''" by (simp add: is_digit_def)
  have h3: "''MB'' \<in> {''B'', ''KB'', ''MB'', ''GB''}" by simp
  have d: "decimal ''10'' = 10" by (simp add: decimal_def digit_val_def)
  have h4: "decimal ''10'' \<le> 2 ^ 53" by (simp add: d)
  have k1: "''9007199254740992'' \<noteq> []" by simp
  have k2: "list_all is_digit ''9007199254740992''" by (simp add: is_digit_def)
  have k3: "''B'' \<in> {''B'', ''KB'', ''MB'', ''GB''}" by simp
  have d': "decimal ''9007199254740992'' = 9007199254740992"
    by (simp add: decimal_def digit_val_def)
  have k4: "decimal ''9007199254740992'' \<le> 2 ^ 53" by (simp add: d')
  from k4 file_size_digits_unit [OF k1 k2 k3]
  have r: "file_size (Some ''9007199254740992B'') = Inr (Some (Finite 9007199254740992))"
    by (simp add: d' spec_unit_multiplier_def)
  show ?thesis
    using h1 h2 h3 h4 k2 k4 r file_size_digits_unit [OF h1 h2 h3]
    by (simp add: d spec_unit_multiplier_def representable_def bit_length.simps)
qed

text \<open>
  Claim C4: \<^verbatim>\<open>file_size\<close> raises \<^verbatim>\<open>TypeError\<close> for every string that is not, as a
  whole, digits followed by a unit. \<^verbatim>\<open>re.match\<close> only anchors the start of the string:
  \<^verbatim>\<open>10MBxyz\<close> is not of that form, and \<^verbatim>\<open>file_size\<close> returns \<open>10485760.0\<close> for it.
\<close>

theorem file_size_trailing_text_accepted:
  "\<not> spec_size_format ''10MBxyz'' \<and>
   file_size (Some ''10MBxyz'') = Inr (Some (Finite 10485760))"
  by (simp add: spec_size_format_def file_size_def re_match_size_def match_unit_def is_digit_def
      float_of_digits_def decimal_def digit_val_def round_double_def float_mul_def
      bit_length.simps)

text \<open>
  Claim C9: \<^verbatim>\<open>file_size(None)\<close> returns \<^verbatim>\<open>None\<close> and raises nothing; the pattern is
  only tried on an argument that is not \<^verbatim>\<open>None\<close>.
\<close>

theorem file_size_None: "file_size None = Inr None"
  by (simp add: file_size_def)

text \<open>
  What makes \<^verbatim>\<open>file_size\<close> raise: it returns a float exactly for the strings that
  start with one or more digits and a unit, and raises \<^verbatim>\<open>TypeError\<close> for all others.
\<close>

lemma re_match_size_Some:
  assumes "re_match_size s = Some (ds, u)"
  shows "\<exists>rest. s = ds @ u @ rest \<and> ds \<noteq> [] \<and> (\<forall>c\<in>set ds. is_digit c) \<and>
           u \<in> {''B'', ''KB'', ''MB'', ''GB''}"
proof -
  from assms have ds: "ds = takeWhile is_digit s" and ne: "ds \<noteq> []"
    and mu: "match_unit (dropWhile is_digit s) = Some u"
    by (auto simp: re_match_size_def Let_def split: if_splits option.splits)
  from mu have u: "u \<in> {''B'', ''KB'', ''MB'', ''GB''}" and "prefix u (dropWhile is_digit s)"
    by (auto simp: match_unit_def split: if_splits)
  then obtain rest where "dropWhile is_digit s = u @ rest"
    by (auto simp: prefix_def)
  then have "s = ds @ u @ rest"
    using takeWhile_dropWhile_id [of is_digit s] by (simp add: ds)
  moreover have "\<forall>c\<in>set ds. is_digit c"
    unfolding ds by (auto dest: set_takeWhileD)
  ultimately show ?thesis using ne u by blast
qed

lemma file_size_TypeError_iff:
  "file_size (Some s) = Inl TypeError \<longleftrightarrow>
     \<not> (\<exists>ds u rest. s = ds @ u @ rest \<and> ds \<noteq> [] \<and> (\<forall>c\<in>set ds. is_digit c) \<and>
          u \<in> {''B'', ''KB'', ''MB'', ''GB''})"
proof
  assume "file_size (Some s) = Inl TypeError"
  then have none: "re_match_size s = None"
    by (auto simp: file_size_def Let_def split: option.splits)
  show "\<not> (\<exists>ds u rest. s = ds @ u @ rest \<and> ds \<noteq> [] \<and> (\<forall>c\<in>set ds. is_digit c) \<and>
          u \<in> {''B'', ''KB'', ''MB'', ''GB''})"
  proof
    assume "\<exists>ds u rest. s = ds @ u @ rest \<and> ds \<noteq> [] \<and> (\<forall>c\<in>set ds. is_digit c) \<and>
          u \<in> {''B'', ''KB'', ''MB'', ''GB''}"
    then obtain ds u rest where "s = ds @ u @ rest" "ds \<noteq> []" "\<forall>c\<in>set ds. is_digit c"
      "u \<in> {''B'', ''KB'', ''MB'', ''GB''}" by blast
    then have "re_match_size s = Some (ds, u)"
      using re_match_size_prefix by blast
    with none show False by simp
  qed
next
  assume no: "\<not> (\<exists>ds u rest. s = ds @ u @ rest \<and> ds \<noteq> [] \<and> (\<forall>c\<in>set ds. is_digit c) \<and>
          u \<in> {''B'', ''KB'', ''MB'', ''GB''})"
  have "re_match_size s = None"
  proof (cases "re_match_size s")
    case None
    then show ?thesis .
  next
    case (Some p)
    obtain ds u where "p = (ds, u)" by (cases p)
    with Some re_match_size_Some [of s ds u] no show ?thesis by blast
  qed
  then show "file_size (Some s) = Inl TypeError"
    by (simp add: file_size_def)
qed

section \<open>Properties of \<^verbatim>\<open>main\<close>\<close>

text \<open>
  What a run leaves behind, in terms of what the body of the \<^verbatim>\<open>try\<close> did: the state
  is the one after that single call, and the exit status and the text on stderr are
  fixed by the exception raised.
\<close>

lemma main_world: "world (main wrap indent dl dlf a w) = snd (try_body dl dlf a w)"
  by (cases "try_body dl dlf a w")
     (simp add: main_def split: option.splits exn.splits)

lemma main_raised:
  assumes "fst (try_body dl dlf a w) = Some e"
  shows "status (main wrap indent dl dlf a w) =
           (case e of NonException m \<Rightarrow> Propagated e | _ \<Rightarrow> Exited 1)"
    and "stderr (main wrap indent dl dlf a w) =
           (case e of
              FileURLRetrievalError m \<Rightarrow> print m
            | FolderContentsMaximumLimitError m \<Rightarrow> print (folder_limit_message (error_msg wrap indent m))
            | ProxyError m \<Rightarrow> print (proxy_message (error_msg wrap indent m))
            | OtherException m \<Rightarrow> print (generic_message (error_msg wrap indent m))
            | NonException m \<Rightarrow> [])"
  using assms
  by (cases "try_body dl dlf a w"; cases e; simp add: main_def)+

lemma messages_differ:
  "folder_limit_message x \<noteq> proxy_message y"
  "proxy_message x \<noteq> generic_message y"
  "folder_limit_message x \<noteq> generic_message y"
  by (simp_all add: folder_limit_message_def proxy_message_def generic_message_def)

text \<open>The pattern \<^verbatim>\<open>^https?://.*\<close> matches the strings that begin with one of the two
  schemes.\<close>

lemma re_match_url_iff:
  "re_match_url s \<longleftrightarrow> (\<exists>rest. s = ''http://'' @ rest \<or> s = ''https://'' @ rest)"
  by (auto simp: re_match_url_def prefix_def)

text \<open>
  Claim C2, as stated: the three failures that reach \<^verbatim>\<open>main\<close>
  (\<^verbatim>\<open>FileURLRetrievalError\<close>, \<^verbatim>\<open>ProxyError\<close>, \<^verbatim>\<open>FolderContentsMaximumLimitError\<close>)
  end the process with pairwise different exit codes. Every handler ends in
  \<^verbatim>\<open>sys.exit(1)\<close>: the three runs below all exit with status 1.
\<close>

theorem main_exit_codes_equal_counterexample:
  "status (main line_wrap line_indent (raising (FileURLRetrievalError ''quota'')) returning example_args 0)
     = Exited 1 \<and>
   status (main line_wrap line_indent (raising (ProxyError ''unreachable'')) returning example_args 0)
     = Exited 1 \<and>
   status (main line_wrap line_indent (raising (FolderContentsMaximumLimitError ''limit'')) returning example_args 0)
     = Exited 1"
  by (simp add: main_def try_body_def example_args_def raising_def)

text \<open>
  Claim C2, amended: the three failures are each handled by a clause of their own, with a
  message of their own and the same exit code 1: \<^verbatim>\<open>FileURLRetrievalError\<close> prints the text
  of the error, \<^verbatim>\<open>FolderContentsMaximumLimitError\<close> a message that starts with
  \<^verbatim>\<open>Failed to retrieve folder contents:\<close>, \<^verbatim>\<open>ProxyError\<close> one that starts with
  \<^verbatim>\<open>Failed to use proxy:\<close>, and the last two differ whatever the texts of the errors.
\<close>

theorem main_failure_kinds:
  assumes "fst (try_body dl1 dlf1 a1 w1) = Some (FileURLRetrievalError m1)"
    and "fst (try_body dl2 dlf2 a2 w2) = Some (FolderContentsMaximumLimitError m2)"
    and "fst (try_body dl3 dlf3 a3 w3) = Some (ProxyError m3)"
  shows "status (main wrap indent dl1 dlf1 a1 w1) = Exited 1 \<and>
         status (main wrap indent dl2 dlf2 a2 w2) = Exited 1 \<and>
         status (main wrap indent dl3 dlf3 a3 w3) = Exited 1 \<and>
         stderr (main wrap indent dl1 dlf1 a1 w1) = m1 @ nl \<and>
         prefix ''Failed to retrieve folder contents:'' (stderr (main wrap indent dl2 dlf2 a2 w2)) \<and>
         prefix ''Failed to use proxy:'' (stderr (main wrap indent dl3 dlf3 a3 w3)) \<and>
         stderr (main wrap indent dl2 dlf2 a2 w2) \<noteq> stderr (main wrap indent dl3 dlf3 a3 w3)"
  using main_raised [OF assms(1), of wrap indent] main_raised [OF assms(2), of wrap indent]
    main_raised [OF assms(3), of wrap indent]
  by (simp add: print_def folder_limit_message_def proxy_message_def)

theorem main_failure_kinds_witness:
  "fst (try_body (raising (FileURLRetrievalError ''quota'')) returning example_args 0)
     = Some (FileURLRetrievalError ''quota'') \<and>
   fst (try_body returning (raising (FolderContentsMaximumLimitError ''limit''))
          (example_args\<lparr>folder := True\<rparr>) 0)
     = Some (FolderContentsMaximumLimitError ''limit'') \<and>
   fst (try_body (raising (ProxyError ''unreachable'')) returning example_args 0)
     = Some (ProxyError ''unreachable'') \<and>
   status (main line_wrap line_indent (raising (FileURLRetrievalError ''quota'')) returning
             example_args 0) = Exited 1 \<and>
   status (main line_wrap line_indent returning (raising (FolderContentsMaximumLimitError ''limit''))
             (example_args\<lparr>folder := True\<rparr>) 0) = Exited 1 \<and>
   status (main line_wrap line_indent (raising (ProxyError ''unreachable'')) returning
             example_args 0) = Exited 1 \<and>
   stderr (main line_wrap line_indent (raising (FileURLRetrievalError ''quota'')) returning
             example_args 0) = ''quota'' @ nl"
proof -
  have h1: "fst (try_body (raising (FileURLRetrievalError ''quota'')) returning example_args 0)
     = Some (FileURLRetrievalError ''quota'')"
    by (simp add: try_body_def example_args_def raising_def)
  have h2: "fst (try_body returning (raising (FolderContentsMaximumLimitError ''limit''))
          (example_args\<lparr>folder := True\<rparr>) (0::nat))
     = Some (FolderContentsMaximumLimitError ''limit'')"
    by (simp add: try_body_def example_args_def raising_def)
  have h3: "fst (try_body (raising (ProxyError ''unreachable'')) returning example_args 0)
     = Some (ProxyError ''unreachable'')"
    by (simp add: try_body_def example_args_def raising_def)
  show ?thesis
    using h1 h2 h3 main_failure_kinds [OF h1 h2 h3, of line_wrap line_indent]
    by simp
qed

text \<open>
  Claim C3: \<^verbatim>\<open>main\<close> makes one downstream call, \<^verbatim>\<open>download_folder\<close> with
  \<^verbatim>\<open>--folder\<close> and \<^verbatim>\<open>download\<close> without: the state after \<^verbatim>\<open>main\<close> is the state
  after that call, and \<^verbatim>\<open>main\<close> returns exactly when the call does. In the keyword
  arguments of the call, with \<^verbatim>\<open>--id\<close> the target is the id and the url is unset;
  without it, a target that matches the pattern for http and https URLs is the url and the
  id is unset; any other target is the id, as it is written, and the url is unset.
\<close>

theorem main_target_passed:
  "world (main wrap indent dl dlf a w) =
     snd (if folder a then dlf (download_folder_call a) w else dl (download_call a) w) \<and>
   (status (main wrap indent dl dlf a w) = Returned \<longleftrightarrow>
     fst (if folder a then dlf (download_folder_call a) w else dl (download_call a) w) = None) \<and>
   (id_flag a \<longrightarrow>
      d_url (download_call a) = None \<and> d_id (download_call a) = Some (url_or_id a) \<and>
      f_url (download_folder_call a) = None \<and>
      f_id (download_folder_call a) = Some (url_or_id a)) \<and>
   (\<not> id_flag a \<and> re_match_url (url_or_id a) \<longrightarrow>
      d_url (download_call a) = Some (url_or_id a) \<and> d_id (download_call a) = None \<and>
      f_url (download_folder_call a) = Some (url_or_id a) \<and>
      f_id (download_folder_call a) = None) \<and>
   (\<not> id_flag a \<and> \<not> re_match_url (url_or_id a) \<longrightarrow>
      d_url (download_call a) = None \<and> d_id (download_call a) = Some (url_or_id a) \<and>
      f_url (download_folder_call a) = None \<and>
      f_id (download_folder_call a) = Some (url_or_id a))"
proof -
  have call: "try_body dl dlf a w =
      (if folder a then dlf (download_folder_call a) w else dl (download_call a) w)"
    by (simp add: try_body_def)
  have "world (main wrap indent dl dlf a w) = snd (try_body dl dlf a w)"
    by (rule main_world)
  moreover have "status (main wrap indent dl dlf a w) = Returned \<longleftrightarrow>
      fst (try_body dl dlf a w) = None"
    by (cases "try_body dl dlf a w")
       (simp add: main_def split: option.splits exn.splits)
  ultimately show ?thesis
    unfolding call
    by (simp add: main_target_def download_call_def download_folder_call_def)
qed

theorem main_target_passed_witness:
  "id_flag (example_args\<lparr>id_flag := True, url_or_id := ''https://drive.google.com/uc?id=abc123''\<rparr>) \<and>
   world (main line_wrap line_indent
            (observing (\<lambda>kw. (d_url kw, d_id kw))) (observing (\<lambda>kw. (f_url kw, f_id kw)))
            (example_args\<lparr>id_flag := True, url_or_id := ''https://drive.google.com/uc?id=abc123''\<rparr>) [])
     = [(None, Some ''https://drive.google.com/uc?id=abc123'')] \<and>
   \<not> id_flag (example_args\<lparr>url_or_id := ''https://drive.google.com/uc?id=abc123''\<rparr>) \<and>
   re_match_url ''https://drive.google.com/uc?id=abc123'' \<and>
   world (main line_wrap line_indent
            (observing (\<lambda>kw. (d_url kw, d_id kw))) (observing (\<lambda>kw. (f_url kw, f_id kw)))
            (example_args\<lparr>url_or_id := ''https://drive.google.com/uc?id=abc123''\<rparr>) [])
     = [(Some ''https://drive.google.com/uc?id=abc123'', None)] \<and>
   \<not> id_flag example_args \<and> \<not> re_match_url ''abc123'' \<and>
   world (main line_wrap line_indent
            (observing (\<lambda>kw. (d_url kw, d_id kw))) (observing (\<lambda>kw. (f_url kw, f_id kw)))
            (example_args\<lparr>folder := True\<rparr>) [])
     = [(None, Some ''abc123'')] \<and>
   status (main line_wrap line_indent
            (observing (\<lambda>kw. (d_url kw, d_id kw))) (observing (\<lambda>kw. (f_url kw, f_id kw)))
            (example_args\<lparr>folder := True\<rparr>) [])
     = Returned"
proof -
  let ?u = "''https://drive.google.com/uc?id=abc123''"
  let ?dl = "observing (\<lambda>kw. (d_url kw, d_id kw))"
  let ?dlf = "observing (\<lambda>kw. (f_url kw, f_id kw))"
  have f1: "id_flag (example_args\<lparr>id_flag := True, url_or_id := ?u\<rparr>)"
    by simp
  have f2: "\<not> id_flag (example_args\<lparr>url_or_id := ?u\<rparr>) \<and>
            re_match_url (url_or_id (example_args\<lparr>url_or_id := ?u\<rparr>))"
    by (simp add: example_args_def re_match_url_def)
  have f3: "\<not> id_flag (example_args\<lparr>folder := True\<rparr>) \<and>
            \<not> re_match_url (url_or_id (example_args\<lparr>folder := True\<rparr>))"
    by (simp add: example_args_def re_match_url_def)
  have g: "\<not> folder (example_args\<lparr>id_flag := True, url_or_id := ?u\<rparr>)"
    "\<not> folder (example_args\<lparr>url_or_id := ?u\<rparr>)"
    "folder (example_args\<lparr>folder := True\<rparr>)"
    "url_or_id (example_args\<lparr>folder := True\<rparr>) = ''abc123''"
    "\<not> id_flag example_args"
    by (simp_all add: example_args_def)
  note t1 = main_target_passed [where a = "example_args\<lparr>id_flag := True, url_or_id := ?u\<rparr>"
      and wrap = line_wrap and indent = line_indent and dl = ?dl and dlf = ?dlf and w = "[]"]
  note t2 = main_target_passed [where a = "example_args\<lparr>url_or_id := ?u\<rparr>"
      and wrap = line_wrap and indent = line_indent and dl = ?dl and dlf = ?dlf and w = "[]"]
  note t3 = main_target_passed [where a = "example_args\<lparr>folder := True\<rparr>"
      and wrap = line_wrap and indent = line_indent and dl = ?dl and dlf = ?dlf and w = "[]"]
  from t1 f1 g(1) have r1: "world (main line_wrap line_indent ?dl ?dlf
      (example_args\<lparr>id_flag := True, url_or_id := ?u\<rparr>) []) = [(None, Some ?u)]"
    by (simp add: observing_def)
  from t2 f2 g(2) have r2: "world (main line_wrap line_indent ?dl ?dlf
      (example_args\<lparr>url_or_id := ?u\<rparr>) []) = [(Some ?u, None)]"
    by (simp add: observing_def)
  from t3 f3 g(3,4) have r3: "world (main line_wrap line_indent ?dl ?dlf
      (example_args\<lparr>folder := True\<rparr>) []) = [(None, Some ''abc123'')]"
    and r4: "status (main line_wrap line_indent ?dl ?dlf
      (example_args\<lparr>folder := True\<rparr>) []) = Returned"
    by (simp_all add: observing_def)
  from f1 f2 f3 g(5) r1 r2 r3 r4 show ?thesis
    by (simp add: re_match_url_def)
qed

text \<open>
  Claim C5: a \<^verbatim>\<open>ProxyError\<close> has a clause of its own, before the clause for any
  \<^verbatim>\<open>Exception\<close>: \<^verbatim>\<open>main\<close> prints the guidance to check the proxy settings, which is
  never the generic message, and exits with status 1. The call is not repeated: the
  state after \<^verbatim>\<open>main\<close> is the state after the one call of the \<^verbatim>\<open>try\<close> body (in the
  run below the downstream function has been called once).
\<close>

theorem main_proxy_error:
  assumes "fst (try_body dl dlf a w) = Some (ProxyError m)"
  shows "status (main wrap indent dl dlf a w) = Exited 1 \<and>
         stderr (main wrap indent dl dlf a w) =
           ''Failed to use proxy:'' @ nl @ nl @ error_msg wrap indent m @ nl @ nl @
           ''Please check your proxy settings.'' @ nl \<and>
         (\<forall>x. stderr (main wrap indent dl dlf a w) \<noteq> print (generic_message x)) \<and>
         world (main wrap indent dl dlf a w) = snd (try_body dl dlf a w)"
  using main_raised [OF assms, of wrap indent] messages_differ(2)
  by (simp add: main_world print_def proxy_message_def)

theorem main_proxy_error_witness:
  "fst (try_body (raising (ProxyError ''unreachable'')) returning example_args 0)
     = Some (ProxyError ''unreachable'') \<and>
   status (main line_wrap line_indent (raising (ProxyError ''unreachable'')) returning example_args 0)
     = Exited 1 \<and>
   stderr (main line_wrap line_indent (raising (ProxyError ''unreachable'')) returning example_args 0)
     = ''Failed to use proxy:'' @ nl @ nl @ tab @ ''unreachable'' @ nl @ nl @
       ''Please check your proxy settings.'' @ nl \<and>
   world (main line_wrap line_indent (raising (ProxyError ''unreachable'')) returning example_args 0)
     = 1"
proof -
  have h: "fst (try_body (raising (ProxyError ''unreachable'')) returning example_args 0)
     = Some (ProxyError ''unreachable'')"
    by (simp add: try_body_def example_args_def raising_def)
  show ?thesis
    using h main_proxy_error [OF h, of line_wrap line_indent]
    by (simp add: try_body_def example_args_def raising_def error_msg_def line_wrap_def
        line_indent_def)
qed



text \<open>
  Claim C7: on \<^verbatim>\<open>FileURLRetrievalError\<close> what \<^verbatim>\<open>main\<close> prints is the text of the error
  itself, unchanged, followed by the newline of \<^verbatim>\<open>print\<close>.
\<close>

theorem main_retrieval_error_message:
  assumes "fst (try_body dl dlf a w) = Some (FileURLRetrievalError m)"
  shows "stderr (main wrap indent dl dlf a w) = m @ nl \<and>
         status (main wrap indent dl dlf a w) = Exited 1"
  using main_raised [OF assms, of wrap indent] by (simp add: print_def)

theorem main_retrieval_error_message_witness:
  "fst (try_body (raising (FileURLRetrievalError ''Too many users have viewed or downloaded this file recently.'')) returning example_args 0)
     = Some (FileURLRetrievalError ''Too many users have viewed or downloaded this file recently.'') \<and>
   stderr (main line_wrap line_indent (raising (FileURLRetrievalError ''Too many users have viewed or downloaded this file recently.'')) returning example_args 0)
     = ''Too many users have viewed or downloaded this file recently.'' @ nl"
proof -
  have h: "fst (try_body (raising (FileURLRetrievalError ''Too many users have viewed or downloaded this file recently.'')) returning example_args 0)
     = Some (FileURLRetrievalError ''Too many users have viewed or downloaded this file recently.'')"
    by (simp add: try_body_def example_args_def raising_def)
  show ?thesis
    using h main_retrieval_error_message [OF h, of line_wrap line_indent] by simp
qed

text \<open>
  Claim C8: \<^verbatim>\<open>main\<close> makes its downstream call (the state after \<^verbatim>\<open>main\<close> is the state
  after that call) with an \<^verbatim>\<open>output\<close> computed beforehand: an output argument that is
  exactly \<^verbatim>\<open>-\<close> has been replaced by the byte stream of standard output; any other value
  (a path, or none) is passed as it is.
\<close>

theorem main_output_stdout:
  "world (main wrap indent dl dlf a w) =
     snd (if folder a then dlf (download_folder_call a) w else dl (download_call a) w) \<and>
   (output_arg a = Some ''-'' \<longrightarrow>
      d_output (download_call a) = Some StdoutBuffer \<and>
      f_output (download_folder_call a) = Some StdoutBuffer) \<and>
   (output_arg a \<noteq> Some ''-'' \<longrightarrow>
      d_output (download_call a) = map_option Path (output_arg a) \<and>
      f_output (download_folder_call a) = map_option Path (output_arg a))"
proof -
  have "world (main wrap indent dl dlf a w) = snd (try_body dl dlf a w)"
    by (rule main_world)
  then show ?thesis
    by (simp add: try_body_def main_output_def download_call_def download_folder_call_def)
qed

theorem main_output_stdout_witness:
  "output_arg (example_args\<lparr>output_arg := Some ''-''\<rparr>) = Some ''-'' \<and>
   world (main line_wrap line_indent (observing d_output) (observing f_output)
            (example_args\<lparr>output_arg := Some ''-''\<rparr>) [])
     = [Some StdoutBuffer] \<and>
   output_arg (example_args\<lparr>output_arg := Some ''out.bin'', folder := True\<rparr>) \<noteq> Some ''-'' \<and>
   world (main line_wrap line_indent (observing d_output) (observing f_output)
            (example_args\<lparr>output_arg := Some ''out.bin'', folder := True\<rparr>) [])
     = [Some (Path ''out.bin'')] \<and>
   output_arg example_args \<noteq> Some ''-'' \<and>
   world (main line_wrap line_indent (observing d_output) (observing f_output) example_args [])
     = [None]"
proof -
  let ?dl = "observing d_output"
  let ?dlf = "observing f_output"
  have g: "\<not> folder (example_args\<lparr>output_arg := Some ''-''\<rparr>)"
    "folder (example_args\<lparr>output_arg := Some ''out.bin'', folder := True\<rparr>)"
    "\<not> folder example_args" "output_arg example_args = None"
    by (simp_all add: example_args_def)
  note t1 = main_output_stdout [where a = "example_args\<lparr>output_arg := Some ''-''\<rparr>"
      and wrap = line_wrap and indent = line_indent and dl = ?dl and dlf = ?dlf and w = "[]"]
  note t2 = main_output_stdout
    [where a = "example_args\<lparr>output_arg := Some ''out.bin'', folder := True\<rparr>"
      and wrap = line_wrap and indent = line_indent and dl = ?dl and dlf = ?dlf and w = "[]"]
  note t3 = main_output_stdout [where a = example_args
      and wrap = line_wrap and indent = line_indent and dl = ?dl and dlf = ?dlf and w = "[]"]
  from t1 g(1) have r1: "world (main line_wrap line_indent ?dl ?dlf
      (example_args\<lparr>output_arg := Some ''-''\<rparr>) []) = [Some StdoutBuffer]"
    by (simp add: observing_def)
  from t2 g(2) have r2: "world (main line_wrap line_indent ?dl ?dlf
      (example_args\<lparr>output_arg := Some ''out.bin'', folder := True\<rparr>) [])
        = [Some (Path ''out.bin'')]"
    by (simp add: observing_def)
  from t3 g(3,4) have r3: "world (main line_wrap line_indent ?dl ?dlf example_args []) = [None]"
    by (simp add: observing_def)
  from r1 r2 r3 g(4) show ?thesis by simp
qed

text \<open>
  Claim C10, as stated: \<^verbatim>\<open>main\<close> catches every exception that the downstream call
  raises, and none leaves \<^verbatim>\<open>main\<close>. The last clause is \<^verbatim>\<open>except Exception\<close>: an
  exception that is not an instance of \<^verbatim>\<open>Exception\<close>, such as the
  \<^verbatim>\<open>KeyboardInterrupt\<close> of an interrupted download, matches no clause; \<^verbatim>\<open>main\<close>
  prints nothing and the exception leaves it.
\<close>

theorem main_KeyboardInterrupt_counterexample:
  "fst (try_body (raising (NonException ''KeyboardInterrupt'')) returning example_args 0)
     = Some (NonException ''KeyboardInterrupt'') \<and>
   status (main line_wrap line_indent (raising (NonException ''KeyboardInterrupt'')) returning
             example_args 0) = Propagated (NonException ''KeyboardInterrupt'') \<and>
   status (main line_wrap line_indent (raising (NonException ''KeyboardInterrupt'')) returning
             example_args 0) \<noteq> Exited 1 \<and>
   stderr (main line_wrap line_indent (raising (NonException ''KeyboardInterrupt'')) returning
             example_args 0) = []"
  by (simp add: main_def try_body_def example_args_def raising_def)

text \<open>
  Claim C10, amended: whatever instance of \<^verbatim>\<open>Exception\<close> the call of \<^verbatim>\<open>download\<close> or
  \<^verbatim>\<open>download_folder\<close> raises, \<^verbatim>\<open>main\<close> catches it, prints the message of the
  clause that matches it to stderr (the text of a \<^verbatim>\<open>FileURLRetrievalError\<close>; the
  messages headed \<^verbatim>\<open>Failed to retrieve folder contents:\<close>, \<^verbatim>\<open>Failed to use proxy:\<close>
  and \<^verbatim>\<open>Error:\<close> for the other three clauses) and exits with status 1 after that one
  call; the exception does not leave \<^verbatim>\<open>main\<close>. An exception that is not an instance
  of \<^verbatim>\<open>Exception\<close> is not caught: nothing is printed and it leaves \<^verbatim>\<open>main\<close>.
\<close>

theorem main_catches_every_Exception:
  assumes "fst (try_body dl dlf a w) = Some e"
  shows "(is_Exception e \<longrightarrow>
            status (main wrap indent dl dlf a w) = Exited 1 \<and>
            (\<forall>x. status (main wrap indent dl dlf a w) \<noteq> Propagated x) \<and>
            stderr (main wrap indent dl dlf a w) =
              (case e of
                 FileURLRetrievalError m \<Rightarrow> m @ nl
               | FolderContentsMaximumLimitError m \<Rightarrow>
                   ''Failed to retrieve folder contents:'' @ nl @ nl @ error_msg wrap indent m @
                   nl @ nl @ ''You can use `--remaining-ok` option to ignore this error.'' @ nl
               | ProxyError m \<Rightarrow>
                   ''Failed to use proxy:'' @ nl @ nl @ error_msg wrap indent m @
                   nl @ nl @ ''Please check your proxy settings.'' @ nl
               | OtherException m \<Rightarrow>
                   ''Error:'' @ nl @ nl @ error_msg wrap indent m @ nl @ nl @
                   ''To report issues, please visit https://github.com/wkentaro/gdown/issues.'' @
                   nl
               | NonException m \<Rightarrow> [])) \<and>
         (\<not> is_Exception e \<longrightarrow>
            status (main wrap indent dl dlf a w) = Propagated e \<and>
            stderr (main wrap indent dl dlf a w) = []) \<and>
         world (main wrap indent dl dlf a w) = snd (try_body dl dlf a w)"
  using main_raised [OF assms, of wrap indent]
  by (cases e)
     (simp_all add: main_world print_def folder_limit_message_def proxy_message_def
        generic_message_def)

theorem main_catches_every_Exception_witness:
  "fst (try_body (raising (OtherException ''connection reset'')) returning example_args 0)
     = Some (OtherException ''connection reset'') \<and>
   is_Exception (OtherException ''connection reset'') \<and>
   status (main line_wrap line_indent (raising (OtherException ''connection reset'')) returning
             example_args 0) = Exited 1 \<and>
   stderr (main line_wrap line_indent (raising (OtherException ''connection reset'')) returning
             example_args 0)
     = ''Error:'' @ nl @ nl @ tab @ ''connection reset'' @ nl @ nl @
       ''To report issues, please visit https://github.com/wkentaro/gdown/issues.'' @ nl \<and>
   world (main line_wrap line_indent (raising (OtherException ''connection reset'')) returning
            example_args 0) = 1 \<and>
   fst (try_body (raising (NonException ''SystemExit'')) returning example_args 0)
     = Some (NonException ''SystemExit'') \<and>
   \<not> is_Exception (NonException ''SystemExit'') \<and>
   status (main line_wrap line_indent (raising (NonException ''SystemExit'')) returning
             example_args 0) = Propagated (NonException ''SystemExit'')"
proof -
  have h: "fst (try_body (raising (OtherException ''connection reset'')) returning example_args 0)
     = Some (OtherException ''connection reset'')"
    by (simp add: try_body_def example_args_def raising_def)
  have h': "fst (try_body (raising (NonException ''SystemExit'')) returning example_args 0)
     = Some (NonException ''SystemExit'')"
    by (simp add: try_body_def example_args_def raising_def)
  show ?thesis
    using h h' main_catches_every_Exception [OF h, of line_wrap line_indent]
      main_catches_every_Exception [OF h', of line_wrap line_indent]
    by (simp add: try_body_def example_args_def raising_def error_msg_def line_wrap_def
        line_indent_def)
qed

end
